theory Spec2Isabelle
  imports Main "HOL-Library.Sublist"
begin

section \<open>Python strings\<close>

text \<open>
  A Python \<open>str\<close> is a sequence of code points; it is modelled as a \<open>string\<close> whose
  characters each stand for one code point, so \<open>length\<close> is Python's \<open>len\<close>. The
  model covers the code points 0 to 255.

  \<open>is_space\<close> is \<open>str.isspace\<close> on one character, the set \<open>str.strip()\<close> removes:
  tab, line feed, vertical tab, form feed, carriage return, the separators 0x1C to 0x1F,
  space, next line (0x85) and no-break space (0xA0).
\<close>

definition is_space :: "char \<Rightarrow> bool" where
  "is_space c = (of_char c \<in> {9, 10, 11, 12, 13, 28, 29, 30, 31, 32, 133, 160 :: nat})"

text \<open>\<open>s.strip()\<close>: whitespace removed at both ends.\<close>

definition strip :: "string \<Rightarrow> string" where
  "strip s = rev (dropWhile is_space (rev (dropWhile is_space s)))"

text \<open>
  The line boundaries of \<open>str.splitlines()\<close>: line feed, vertical tab, form feed,
  carriage return, the separators 0x1C to 0x1E and next line; a carriage return followed
  by a line feed is one boundary.
\<close>

definition is_linebreak :: "char \<Rightarrow> bool" where
  "is_linebreak c = (of_char c \<in> {10, 11, 12, 13, 28, 29, 30, 133 :: nat})"

text \<open>A string without a line boundary: what \<open>splitlines\<close> yields as a line.\<close>

definition linebreak_free :: "string \<Rightarrow> bool" where
  "linebreak_free l = (\<forall>c\<in>set l. \<not> is_linebreak c)"

fun after_break :: "char \<Rightarrow> string \<Rightarrow> string" where
  "after_break c [] = []"
| "after_break c (d # ds) = (if c = CHR 0x0D \<and> d = CHR 0x0A then ds else d # ds)"

text \<open>
  \<open>splitlines_from cur rest\<close>: the lines of \<open>rest\<close>, the first of them prefixed with the
  characters \<open>cur\<close> already read. No line is produced after a final boundary, and the
  empty string has no line.
\<close>

function splitlines_from :: "string \<Rightarrow> string \<Rightarrow> string list" where
  "splitlines_from cur [] = (if cur = [] then [] else [cur])"
| "splitlines_from cur (c # cs) =
     (if is_linebreak c then cur # splitlines_from [] (after_break c cs)
      else splitlines_from (cur @ [c]) cs)"
  by pat_completeness auto
termination
proof (relation "measure (\<lambda>(cur, rest). length rest)")
  show "wf (measure (\<lambda>(cur, rest). length rest))" by simp
next
  fix cur :: string and c :: char and cs :: string
  show "(([], after_break c cs), (cur, c # cs)) \<in> measure (\<lambda>(cur, rest). length rest)"
    by (cases cs) auto
next
  fix cur :: string and c :: char and cs :: string
  show "((cur @ [c], cs), (cur, c # cs)) \<in> measure (\<lambda>(cur, rest). length rest)"
    by simp
qed

definition splitlines :: "string \<Rightarrow> string list" where
  "splitlines s = splitlines_from [] s"

text \<open>\<open>s.split(" ")\<close>: the pieces between single spaces; always at least one piece.\<close>

fun split_space :: "string \<Rightarrow> string list" where
  "split_space [] = [[]]"
| "split_space (c # cs) =
     (if c = CHR '' '' then [] # split_space cs
      else (case split_space cs of
              [] \<Rightarrow> [[c]]
            | w # ws \<Rightarrow> (c # w) # ws))"

text \<open>\<open>sep.join(xs)\<close>.\<close>

fun join :: "string \<Rightarrow> string list \<Rightarrow> string" where
  "join sep [] = []"
| "join sep [x] = x"
| "join sep (x # y # zs) = x @ sep @ join sep (y # zs)"

section \<open>Exceptions and returned values\<close>

text \<open>
  The exceptions the body of \<open>run\<close> can meet, each carrying the text \<open>str(e)\<close> gives:
  a failure of \<open>requests.get\<close> (DNS, refused connection, timeout, ...), the \<open>HTTPError\<close>
  of \<open>raise_for_status\<close>, a document the parser rejects, and an attribute lookup that
  fails. All of them are subclasses of \<open>Exception\<close>.
\<close>

datatype exn =
    RequestException string
  | HTTPError string
  | ParserRejectedMarkup string
  | AttributeError string

fun str_exn :: "exn \<Rightarrow> string" where
  "str_exn (RequestException m) = m"
| "str_exn (HTTPError m) = m"
| "str_exn (ParserRejectedMarkup m) = m"
| "str_exn (AttributeError m) = m"

text \<open>What a call of \<open>run\<close> hands back: a \<open>str\<close>, or \<open>None\<close> when the body ends
  without a \<open>return\<close>.\<close>

datatype py_value = PyStr string | PyNone

section \<open>The HTTP response\<close>

text \<open>
  The fields of \<open>requests.Response\<close> the tool reads (\<open>text'\<close> is the field
  \<open>text\<close>). \<open>http_error_msg\<close> is the message
  \<open>raise_for_status\<close> builds from the status, the reason phrase and the URL.
\<close>

record response =
  status_code :: int
  http_error_msg :: string
  text' :: string

text \<open>\<open>Response.raise_for_status()\<close> raises for the client errors 400 to 499 and the
  server errors 500 to 599, and for no other status.\<close>

definition raise_for_status :: "response \<Rightarrow> exn + unit" where
  "raise_for_status r =
     (if 400 \<le> status_code r \<and> status_code r < 600
      then Inl (HTTPError (http_error_msg r)) else Inr ())"

section \<open>The parsed document\<close>

text \<open>
  The tree \<open>BeautifulSoup(markup, "html.parser")\<close> builds: a \<open>Tag\<close> with its name and
  children, a \<open>NavigableString\<close> (a string \<open>get_text\<close> collects), and a \<open>Comment\<close>
  (standing for the string classes \<open>get_text\<close> leaves out: comments, doctypes,
  declarations, processing instructions).
\<close>

datatype node =
    Tag string "node list"
  | NavigableString string
  | Comment string

text \<open>
  A node is identified by its position in the tree as parsed: the child indices from
  the root down. \<open>extract()\<close> unlinks a node from its parent; the soup keeps the tree as
  parsed together with the set of nodes unlinked so far.
\<close>

type_synonym path = "nat list"

record soup =
  contents :: "node list"
  detached :: "path set"

definition BeautifulSoup :: "node list \<Rightarrow> soup" where
  "BeautifulSoup nodes = \<lparr>contents = nodes, detached = {}\<rparr>"

text \<open>
  \<open>descendants D p i nodes\<close>: the nodes still linked below the parent at \<open>p\<close>, in document
  order, each with its path; \<open>nodes\<close> are the children of \<open>p\<close> from index \<open>i\<close> on.
\<close>

fun descendants :: "path set \<Rightarrow> path \<Rightarrow> nat \<Rightarrow> node list \<Rightarrow> (path \<times> node) list" where
  "descendants D p i [] = []"
| "descendants D p i (Tag n cs # rest) =
     (if p @ [i] \<in> D then []
      else (p @ [i], Tag n cs) # descendants D (p @ [i]) 0 cs)
     @ descendants D p (Suc i) rest"
| "descendants D p i (NavigableString s # rest) =
     (if p @ [i] \<in> D then [] else [(p @ [i], NavigableString s)])
     @ descendants D p (Suc i) rest"
| "descendants D p i (Comment s # rest) =
     (if p @ [i] \<in> D then [] else [(p @ [i], Comment s)])
     @ descendants D p (Suc i) rest"

definition soup_descendants :: "soup \<Rightarrow> (path \<times> node) list" where
  "soup_descendants s = descendants (detached s) [] 0 (contents s)"

text \<open>\<open>soup(names)\<close>, that is \<open>soup.find_all(names)\<close>: the tags below the root whose
  name is one of \<open>names\<close>, in document order.\<close>

fun named :: "string list \<Rightarrow> node \<Rightarrow> bool" where
  "named names (Tag n cs) = (n \<in> set names)"
| "named names (NavigableString s) = False"
| "named names (Comment s) = False"

definition find_all :: "string list \<Rightarrow> soup \<Rightarrow> path list" where
  "find_all names s = map fst (filter (\<lambda>(p, c). named names c) (soup_descendants s))"

text \<open>\<open>element.extract()\<close>: the element leaves the tree.\<close>

definition extract' :: "path \<Rightarrow> soup \<Rightarrow> soup" where
  "extract' p s = s\<lparr>detached := insert p (detached s)\<rparr>"

text \<open>
  \<open>soup.get_text(separator, strip=True)\<close>: the strings of the tree in document order,
  each stripped, the empty ones dropped, joined with the separator.
\<close>

fun navigable :: "path \<times> node \<Rightarrow> string list" where
  "navigable (p, NavigableString s) = [s]"
| "navigable (p, Tag n cs) = []"
| "navigable (p, Comment s) = []"

definition all_strings :: "soup \<Rightarrow> string list" where
  "all_strings s =
     filter (\<lambda>t. t \<noteq> []) (map strip (concat (map navigable (soup_descendants s))))"

definition get_text :: "string \<Rightarrow> soup \<Rightarrow> string" where
  "get_text separator s = join separator (all_strings s)"

section \<open>The scraper tool\<close>

text \<open>The object \<open>__init__\<close> builds; \<open>run\<close> neither reads nor assigns its fields.\<close>

record scraper =
  name :: string
  description :: string

definition init :: scraper where
  "init = \<lparr>name = ''WebScraper'',
            description = ''Scrape content from a website with advanced options. Input should be a URL''\<rparr>"

subsection \<open>Discarding the non-content elements and reading the text\<close>

definition non_content :: "string list" where
  "non_content = [''script'', ''style'', ''footer'', ''nav'', ''aside'']"

text \<open>The loop \<open>for script in soup([...]): script.extract()\<close>: the list of matches is
  computed once, then every match is unlinked in turn.\<close>

definition discard_non_content :: "soup \<Rightarrow> soup" where
  "discard_non_content s = fold extract' (find_all non_content s) s"

text \<open>The variable \<open>text\<close> after \<open>soup.get_text(separator = "\n", strip = True)\<close>, for
  the tree the parser built.\<close>

definition page_text :: "node list \<Rightarrow> string" where
  "page_text nodes = get_text ''\<newline>'' (discard_non_content (BeautifulSoup nodes))"

subsection \<open>The three normalisation lines\<close>

text \<open>
  A generator is modelled by the results it produces when iterated, in order: \<open>Inr v\<close>
  for a value, \<open>Inl e\<close> for an exception raised while producing the next value (after
  which the generator is finished).

  \<open>strip_method\<close> is the call \<open>obj.strip()\<close>: a string has the method, a generator
  object has no such attribute.
\<close>

datatype py_object = StrObject string | GeneratorObject

text \<open>The message of the failed lookup:
  \<^verbatim>\<open>'generator' object has no attribute 'strip'\<close>.\<close>

definition no_strip_attribute :: string where
  "no_strip_attribute = CHR 0x27 # ''generator' object has no attribute 'strip'' @ [CHR 0x27]"

fun strip_method :: "py_object \<Rightarrow> exn + string" where
  "strip_method (StrObject s) = Inr (strip s)"
| "strip_method GeneratorObject = Inl (AttributeError no_strip_attribute)"

text \<open>
  \<open>lines = (lines.strip() for line in text.splitlines())\<close>. The element expression
  names \<open>lines\<close>, not \<open>line\<close>: when an element is produced, \<open>lines\<close> is bound to the
  generator itself, so each element is the call of \<open>strip\<close> on a generator object.
\<close>

definition lines_gen :: "string \<Rightarrow> (exn + string) list" where
  "lines_gen text = map (\<lambda>line. strip_method GeneratorObject) (splitlines text)"

text \<open>\<open>chunks = (phrase.strip() for line in lines for phrase in line.split(" "))\<close>,
  for any iterable \<open>lines\<close>.\<close>

fun chunks_gen :: "(exn + string) list \<Rightarrow> (exn + string) list" where
  "chunks_gen [] = []"
| "chunks_gen (Inl e # rest) = [Inl e]"
| "chunks_gen (Inr line # rest) =
     map (\<lambda>phrase. strip_method (StrObject phrase)) (split_space line) @ chunks_gen rest"

text \<open>The generator \<open>(chunk for chunk in chunks if chunk)\<close> as \<open>join\<close> consumes it:
  the non-empty chunks, or the first exception met.\<close>

fun nonempty_chunks :: "(exn + string) list \<Rightarrow> exn + string list" where
  "nonempty_chunks [] = Inr []"
| "nonempty_chunks (Inl e # rest) = Inl e"
| "nonempty_chunks (Inr chunk # rest) =
     (case nonempty_chunks rest of
        Inl e \<Rightarrow> Inl e
      | Inr cs \<Rightarrow> Inr (if chunk \<noteq> [] then chunk # cs else cs))"

text \<open>\<open>text = "\n".join(chunk for chunk in chunks if chunk)\<close>, for any iterable
  \<open>lines\<close> that \<open>chunks\<close> reads.\<close>

definition join_chunks :: "(exn + string) list \<Rightarrow> exn + string" where
  "join_chunks lines =
     (case nonempty_chunks (chunks_gen lines) of
        Inl e \<Rightarrow> Inl e
      | Inr cs \<Rightarrow> Inr (join ''\<newline>'' cs))"

text \<open>The three lines together, from the text \<open>get_text\<close> returned.\<close>

definition normalize_text :: "string \<Rightarrow> exn + string" where
  "normalize_text text = join_chunks (lines_gen text)"

subsection \<open>The length cap and the return\<close>

definition max_length :: nat where
  "max_length = 4000"

definition truncation_marker :: string where
  "truncation_marker = ''...\<newline>[Content truncated due to length]''"

text \<open>The variable \<open>text\<close> after the conditional \<open>if len(text) > max_length\<close>.\<close>

definition capped_text :: "string \<Rightarrow> string" where
  "capped_text text =
     (if length text > max_length then take max_length text @ truncation_marker else text)"

definition content_from :: "string \<Rightarrow> string \<Rightarrow> string" where
  "content_from url text = ''Content from '' @ url @ '':\<newline>\<newline>'' @ text"

definition error_scraping :: "string \<Rightarrow> exn \<Rightarrow> string" where
  "error_scraping url e = ''Error scraping '' @ url @ '':'' @ str_exn e"

text \<open>The end of the \<open>try\<close> body: the \<open>return\<close> is inside the conditional, so a text
  of at most \<open>max_length\<close> characters leaves the body without a \<open>return\<close> and the call
  gives \<open>None\<close>.\<close>

definition finish :: "string \<Rightarrow> string \<Rightarrow> py_value" where
  "finish url text =
     (if length text > max_length then PyStr (content_from url (capped_text text))
      else PyNone)"

subsection \<open>The method \<open>run\<close>\<close>

text \<open>
  The two library calls that reach outside the program are parameters:
  \<open>requests_get url headers timeout\<close> is \<open>requests.get\<close> (an exception or a response),
  \<open>parse markup\<close> is the tree \<open>BeautifulSoup(markup, "html.parser")\<close> builds (or the
  exception of a parser that rejects the markup).
\<close>

type_synonym http_get = "string \<Rightarrow> (string \<times> string) list \<Rightarrow> nat \<Rightarrow> exn + response"
type_synonym parser = "string \<Rightarrow> exn + node list"

definition headers :: "(string \<times> string) list" where
  "headers = [(''User-Agent'', ''Mozilla/5.0 (Windows NT 10.0; Win64, x64) AppleWebKit/537.36 (KHTML, like Gecko) Chrome/91.0.4472.124 Safari/537.36'')]"

text \<open>Lines 29 to 38: the normalised text of a markup string.\<close>

definition normalized :: "parser \<Rightarrow> string \<Rightarrow> exn + string" where
  "normalized parse markup =
     (case parse markup of
        Inl e \<Rightarrow> Inl e
      | Inr nodes \<Rightarrow> normalize_text (page_text nodes))"

text \<open>Lines 29 to 43: the variable \<open>text\<close> at the end of the extraction.\<close>

definition extraction :: "parser \<Rightarrow> string \<Rightarrow> exn + string" where
  "extraction parse markup =
     (case normalized parse markup of
        Inl e \<Rightarrow> Inl e
      | Inr text \<Rightarrow> Inr (capped_text text))"

text \<open>The extraction as a step of the tool object: the result, and the object after
  the call.\<close>

definition extraction_step :: "parser \<Rightarrow> string \<Rightarrow> scraper \<Rightarrow> (exn + string) \<times> scraper" where
  "extraction_step parse markup self = (extraction parse markup, self)"

text \<open>The body of the \<open>try\<close>.\<close>

definition run_body :: "http_get \<Rightarrow> parser \<Rightarrow> string \<Rightarrow> exn + py_value" where
  "run_body requests_get parse url =
     (case requests_get url headers 10 of
        Inl e \<Rightarrow> Inl e
      | Inr response \<Rightarrow>
          (case raise_for_status response of
             Inl e \<Rightarrow> Inl e
           | Inr _ \<Rightarrow>
               (case normalized parse (text' response) of
                  Inl e \<Rightarrow> Inl e
                | Inr text \<Rightarrow> Inr (finish url text))))"

text \<open>\<open>run\<close>: \<open>Inr v\<close> when the call returns \<open>v\<close>, \<open>Inl e\<close> when the exception \<open>e\<close>
  leaves the call. The handler \<open>except Exception as e\<close> turns every exception of the body
  into the returned error string.\<close>

definition run :: "http_get \<Rightarrow> parser \<Rightarrow> string \<Rightarrow> exn + py_value" where
  "run requests_get parse url =
     (case run_body requests_get parse url of
        Inl e \<Rightarrow> Inr (PyStr (error_scraping url e))
      | Inr v \<Rightarrow> Inr v)"

section \<open>The extraction in the specification's words\<close>

text \<open>The strings of a document that lie outside every element with one of the given
  names: what is left to read once those elements and their subtrees are discarded.\<close>

fun kept_strings :: "string list \<Rightarrow> node list \<Rightarrow> string list" where
  "kept_strings names [] = []"
| "kept_strings names (Tag n cs # rest) =
     (if n \<in> set names then [] else kept_strings names cs) @ kept_strings names rest"
| "kept_strings names (NavigableString s # rest) = s # kept_strings names rest"
| "kept_strings names (Comment s # rest) = kept_strings names rest"

text \<open>Strip each line, split it on single spaces, strip each phrase, drop the empty
  phrases, join the rest with newlines.\<close>

definition normalize_spec :: "string \<Rightarrow> string" where
  "normalize_spec text =
     join ''\<newline>''
       (filter (\<lambda>chunk. chunk \<noteq> [])
          (map strip (concat (map (\<lambda>line. split_space (strip line)) (splitlines text)))))"

section \<open>The chat history\<close>

text \<open>A message is the dictionary \<open>{"role": ..., "content": ...}\<close>;
  \<open>st.session_state.messages\<close> is the list of them.\<close>

record message =
  role :: string
  content :: string

definition error_message :: "exn \<Rightarrow> string" where
  "error_message e = ''An error occured '' @ str_exn e"

text \<open>
  One run of the script from \<open>if user_question and agent:\<close> on. \<open>user_question\<close> is what
  \<open>st.chat_input\<close> returned (\<open>None\<close> without a submission), \<open>agent\<close> the agent or \<open>None\<close>
  when its construction failed; \<open>agent.run\<close> returns the answer or raises. The handler
  of the \<open>try\<close> shows \<open>error_message\<close> and appends it as an assistant message.
\<close>

definition chat_turn ::
  "(string \<Rightarrow> exn + string) option \<Rightarrow> string option \<Rightarrow> message list \<Rightarrow> message list" where
  "chat_turn agent user_question messages =
     (case user_question of
        None \<Rightarrow> messages
      | Some q \<Rightarrow>
          (case agent of
             None \<Rightarrow> messages
           | Some agent_run \<Rightarrow>
               if q = [] then messages
               else (let messages1 = messages @ [\<lparr>role = ''user'', content = q\<rparr>]
                     in (case agent_run q of
                           Inr response \<Rightarrow>
                             messages1 @ [\<lparr>role = ''assistant'', content = response\<rparr>]
                         | Inl e \<Rightarrow>
                             messages1 @ [\<lparr>role = ''assistant'', content = error_message e\<rparr>]))))"

section \<open>Concrete inputs\<close>

text \<open>A server that answers every request with the given status and body, a network
  that fails with the given message, and a parser that builds the given tree.\<close>

definition serve :: "int \<Rightarrow> string \<Rightarrow> http_get" where
  "serve status body url hs timeout =
     Inr \<lparr>status_code = status, http_error_msg = ''HTTP error for url'', text' = body\<rparr>"

definition unreachable :: "string \<Rightarrow> http_get" where
  "unreachable m url hs timeout = Inl (RequestException m)"

definition parsed_as :: "node list \<Rightarrow> parser" where
  "parsed_as nodes markup = Inr nodes"

definition example_url :: string where
  "example_url = ''http://example.com''"

definition hello_markup :: string where
  "hello_markup = ''<html><body><p>Hello   world</p></body></html>''"

definition hello_doc :: "node list" where
  "hello_doc = [Tag ''html'' [Tag ''body'' [Tag ''p'' [NavigableString ''Hello   world'']]]]"

definition long_doc :: "node list" where
  "long_doc = [Tag ''p'' [NavigableString (replicate 4001 CHR ''a'')]]"

definition secret_doc :: "node list" where
  "secret_doc =
     [Tag ''html''
        [Tag ''head'' [Tag ''script'' [NavigableString ''secret'']],
         Tag ''body''
           [Tag ''p'' [NavigableString ''Hello   world''],
            Tag ''footer'' [Tag ''p'' [NavigableString ''imprint'']]]]]"


definition failing_agent :: "string \<Rightarrow> exn + string" where
  "failing_agent q = Inl (RequestException ''rate limit'')"

definition answering_agent :: "string \<Rightarrow> exn + string" where
  "answering_agent q = Inr ''42''"

section \<open>Auxiliary facts\<close>

lemma splitlines_from_nonempty: "cur \<noteq> [] \<or> rest \<noteq> [] \<Longrightarrow> splitlines_from cur rest \<noteq> []"
  by (induction cur rest rule: splitlines_from.induct) auto

lemma splitlines_nonempty: "t \<noteq> [] \<Longrightarrow> splitlines t \<noteq> []"
  by (simp add: splitlines_def splitlines_from_nonempty)

lemma splitlines_Nil: "splitlines [] = []"
  by (simp add: splitlines_def)

lemma normalize_text_raises:
  assumes "t \<noteq> []"
  shows "normalize_text t = Inl (AttributeError no_strip_attribute)"
proof -
  obtain l ls where "splitlines t = l # ls"
    using splitlines_nonempty [OF assms] by (cases "splitlines t") auto
  then show ?thesis
    by (simp add: normalize_text_def join_chunks_def lines_gen_def)
qed

lemma normalize_text_Nil: "normalize_text [] = Inr []"
  by (simp add: normalize_text_def join_chunks_def lines_gen_def splitlines_Nil)

lemma run_after_get:
  assumes "requests_get url headers 10 = Inr response"
    and "\<not> (400 \<le> status_code response \<and> status_code response < 600)"
    and "parse (text' response) = Inr nodes"
  shows "run requests_get parse url =
     (case normalize_text (page_text nodes) of
        Inl e \<Rightarrow> Inr (PyStr (error_scraping url e))
      | Inr t \<Rightarrow> Inr (finish url t))"
  using assms
  by (auto simp: run_def run_body_def raise_for_status_def normalized_def split: sum.splits)

lemma page_text_hello: "page_text hello_doc = ''Hello   world''"
  by (simp add: page_text_def get_text_def all_strings_def soup_descendants_def
      discard_non_content_def find_all_def BeautifulSoup_def hello_doc_def non_content_def
      extract'_def strip_def is_space_def)

lemma page_text_Nil: "page_text [] = []"
  by (simp add: page_text_def get_text_def all_strings_def soup_descendants_def
      discard_non_content_def find_all_def BeautifulSoup_def)

lemma finish_Nil: "finish url [] = PyNone"
  by (simp add: finish_def max_length_def)

lemma run_serve:
  assumes "\<not> (400 \<le> status \<and> status < 600)"
  shows "run (serve status body) (parsed_as nodes) url =
     (case normalize_text (page_text nodes) of
        Inl e \<Rightarrow> Inr (PyStr (error_scraping url e))
      | Inr t \<Rightarrow> Inr (finish url t))"
  using assms
  by (auto simp: run_def run_body_def raise_for_status_def normalized_def serve_def
      parsed_as_def split: sum.splits)

lemma page_text_long: "page_text long_doc = replicate 4001 CHR ''a''"
proof -
  have "dropWhile is_space (replicate 4001 CHR ''a'') = replicate 4001 CHR ''a''"
    by (rule dropWhile_eq_self_iff [THEN iffD2]) (simp add: is_space_def)
  then have "strip (replicate 4001 CHR ''a'') = replicate 4001 CHR ''a''"
    by (simp add: strip_def)
  then show ?thesis
    by (simp add: page_text_def get_text_def all_strings_def soup_descendants_def
      discard_non_content_def find_all_def BeautifulSoup_def long_doc_def non_content_def
      extract'_def)
qed

subsection \<open>The tree after the discarding loop\<close>

lemma descendants_path:
  "(q, c) \<in> set (descendants D p i ns) \<Longrightarrow> \<exists>j r. q = p @ j # r \<and> i \<le> j"
proof (induction D p i ns rule: descendants.induct)
  case (1 D p i)
  then show ?case by simp
next
  case (2 D p i n cs rest)
  then show ?case
    by (fastforce split: if_splits)
next
  case (3 D p i s rest)
  then show ?case by (fastforce split: if_splits)
next
  case (4 D p i s rest)
  then show ?case by (fastforce split: if_splits)
qed

lemma below_child:
  "x \<in> set (descendants D (p @ [i]) k cs)
   \<Longrightarrow> fst x ! length p = i \<and> Suc (length p) < length (fst x)"
  using descendants_path [of "fst x" "snd x" D "p @ [i]" k cs]
  by (auto simp: nth_append)

lemma later_sibling:
  "x \<in> set (descendants D p k rest) \<Longrightarrow> k \<le> fst x ! length p"
  using descendants_path [of "fst x" "snd x" D p k rest]
  by (auto simp: nth_append)

lemma descendants_functional:
  "(q, c) \<in> set (descendants D p i ns) \<Longrightarrow> (q, c') \<in> set (descendants D p i ns) \<Longrightarrow> c = c'"
proof (induction D p i ns rule: descendants.induct)
  case (1 D p i)
  then show ?case by simp
next
  case (2 D p i n cs rest)
  note sub = below_child [of _ D p i 0 cs] and sib = later_sibling [of _ D p "Suc i" rest]
  from 2 sub [of "(q, c)"] sub [of "(q, c')"] sib [of "(q, c)"] sib [of "(q, c')"]
  show ?case
    by (auto split: if_splits)
next
  case (3 D p i s rest)
  note sib = later_sibling [of _ D p "Suc i" rest]
  from 3 sib [of "(q, c)"] sib [of "(q, c')"]
  show ?case by (auto split: if_splits)
next
  case (4 D p i s rest)
  note sib = later_sibling [of _ D p "Suc i" rest]
  from 4 sib [of "(q, c)"] sib [of "(q, c')"]
  show ?case by (auto split: if_splits)
qed

lemma strings_of_descendants:
  "(\<And>q c. (q, c) \<in> set (descendants {} p i ns) \<Longrightarrow> (q \<in> D) = named names c)
   \<Longrightarrow> concat (map navigable (descendants D p i ns)) = kept_strings names ns"
proof (induction D p i ns rule: descendants.induct)
  case (1 D p i)
  then show ?case by simp
next
  case (2 D p i n cs rest)
  have here: "(p @ [i] \<in> D) = (n \<in> set names)"
    using "2.prems" [of "p @ [i]" "Tag n cs"] by simp
  have rest: "concat (map navigable (descendants D p (Suc i) rest)) = kept_strings names rest"
    by (rule "2.IH"(2)) (rule "2.prems", simp)
  show ?case
  proof (cases "p @ [i] \<in> D")
    case True
    with here rest show ?thesis by simp
  next
    case False
    have "concat (map navigable (descendants D (p @ [i]) 0 cs)) = kept_strings names cs"
      by (rule "2.IH"(1) [OF False]) (rule "2.prems", simp)
    with False here rest show ?thesis by simp
  qed
next
  case (3 D p i s rest)
  have here: "p @ [i] \<notin> D"
    using "3.prems" [of "p @ [i]" "NavigableString s"] by simp
  have "concat (map navigable (descendants D p (Suc i) rest)) = kept_strings names rest"
    by (rule "3.IH") (rule "3.prems", simp)
  with here show ?case by simp
next
  case (4 D p i s rest)
  have here: "p @ [i] \<notin> D"
    using "4.prems" [of "p @ [i]" "Comment s"] by simp
  have "concat (map navigable (descendants D p (Suc i) rest)) = kept_strings names rest"
    by (rule "4.IH") (rule "4.prems", simp)
  with here show ?case by simp
qed

lemma fold_extract:
  "contents (fold extract' ps s) = contents s
   \<and> detached (fold extract' ps s) = set ps \<union> detached s"
  by (induction ps arbitrary: s) (auto simp: extract'_def)

lemma all_strings_discard:
  "all_strings (discard_non_content (BeautifulSoup nodes))
     = filter (\<lambda>t. t \<noteq> []) (map strip (kept_strings non_content nodes))"
proof -
  let ?S = "descendants {} [] 0 nodes"
  let ?D = "set (map fst (filter (\<lambda>(p, c). named non_content c) ?S))"
  have agree: "(q \<in> ?D) = named non_content c" if "(q, c) \<in> set ?S" for q c
  proof
    assume "q \<in> ?D"
    then obtain c' where "(q, c') \<in> set ?S" and "named non_content c'"
      by auto
    with that show "named non_content c"
      using descendants_functional by blast
  next
    assume "named non_content c"
    with that show "q \<in> ?D" by force
  qed
  have "concat (map navigable (descendants ?D [] 0 nodes)) = kept_strings non_content nodes"
    by (rule strings_of_descendants) (rule agree)
  then show ?thesis
    by (simp add: all_strings_def soup_descendants_def discard_non_content_def find_all_def
        BeautifulSoup_def fold_extract)
qed

subsection \<open>Substrings of stripped and joined strings\<close>

lemma sublist_strip: "sublist w (strip s) \<Longrightarrow> sublist w s"
proof -
  assume a: "sublist w (strip s)"
  have "suffix (dropWhile is_space s) s"
    by (rule suffix_dropWhile)
  moreover have "prefix (strip s) (dropWhile is_space s)"
    unfolding strip_def
    by (metis suffix_dropWhile suffix_to_prefix rev_rev_ident)
  ultimately have "sublist (strip s) s"
    by (meson prefix_imp_sublist suffix_imp_sublist sublist_order.order.trans)
  with a show ?thesis
    by (meson sublist_order.order.trans)
qed

lemma sublist_join:
  assumes "w \<noteq> []" and "c \<notin> set w" and "sublist w (join [c] xs)"
  shows "\<exists>x\<in>set xs. sublist w x"
  using assms(3)
proof (induction "[c]" xs rule: join.induct)
  case 1
  with assms(1) show ?case by simp
next
  case (2 x)
  then show ?case by simp
next
  case (3 x y zs)
  from "3.prems" have "sublist w (x @ c # join [c] (y # zs))" by simp
  then consider "sublist w x" | "sublist w (c # join [c] (y # zs))"
    | w1 w2 where "w = w1 @ w2" "suffix w1 x" "prefix w2 (c # join [c] (y # zs))"
    unfolding sublist_append by blast
  then show ?case
  proof cases
    case 1
    then show ?thesis by auto
  next
    case 2
    with assms(1,2) have "sublist w (join [c] (y # zs))"
      by (cases w) (auto simp: sublist_Cons_right prefix_Cons)
    with "3.hyps" show ?thesis by auto
  next
    case 3
    show ?thesis
    proof (cases w2)
      case Nil
      with 3 have "suffix w x" by simp
      then show ?thesis by (auto dest: suffix_imp_sublist)
    next
      case (Cons a as)
      with 3 have "a = c" by (simp add: prefix_Cons)
      with 3 Cons assms(2) show ?thesis by simp
    qed
  qed
qed

subsection \<open>The lines of joined chunks\<close>

lemma after_break_newline: "after_break CHR 0x0A rest = rest"
  by (cases rest) auto

lemma splitlines_from_line:
  "linebreak_free l \<Longrightarrow> splitlines_from cur (l @ rest) = splitlines_from (cur @ l) rest"
  by (induction l arbitrary: cur) (auto simp: linebreak_free_def)

lemma splitlines_join:
  "(\<And>c. c \<in> set cs \<Longrightarrow> c \<noteq> [] \<and> linebreak_free c)
   \<Longrightarrow> splitlines (join ''\<newline>'' cs) = cs"
proof (induction "''\<newline>''" cs rule: join.induct)
  case 1
  then show ?case by (simp add: splitlines_def)
next
  case (2 x)
  then have "x \<noteq> []" and "linebreak_free x" by simp_all
  then show ?case
    using splitlines_from_line [of x "[]" "[]"] by (simp add: splitlines_def)
next
  case (3 x y zs)
  have x: "linebreak_free x" using "3.prems" [of x] by simp
  have "splitlines (join ''\<newline>'' (y # zs)) = y # zs"
    by (rule "3.hyps") (rule "3.prems", simp)
  then show ?case
    using splitlines_from_line [OF x, of "[]" "CHR 0x0A # join ''\<newline>'' (y # zs)"]
    by (simp add: splitlines_def is_linebreak_def after_break_newline)
qed

subsection \<open>A long text without spaces\<close>

lemma strip_letters: "strip (replicate n CHR ''a'') = replicate n CHR ''a''"
proof -
  have "dropWhile is_space (replicate n CHR ''a'') = replicate n CHR ''a''"
    by (cases n) (simp_all add: is_space_def)
  then show ?thesis
    by (simp add: strip_def)
qed

lemma split_space_letters: "split_space (replicate n CHR ''a'') = [replicate n CHR ''a'']"
  by (induction n) auto

lemma splitlines_letters: "splitlines (replicate (Suc n) CHR ''a'') = [replicate (Suc n) CHR ''a'']"
  using splitlines_join [of "[replicate (Suc n) CHR ''a'']"]
  by (simp add: linebreak_free_def is_linebreak_def)

lemma normalize_spec_letters:
  "normalize_spec (replicate (Suc n) CHR ''a'') = replicate (Suc n) CHR ''a''"
  unfolding normalize_spec_def splitlines_letters
  by (simp add: strip_letters split_space_letters del: replicate_Suc)

section \<open>The claims\<close>

text \<open>
  Claim C1. A page whose normalised text is shorter than 4000 characters should give a
  non-empty string that contains that text. For the page with the text
  \<open>Hello   world\<close> the code returns the error string of the \<open>AttributeError\<close>, which
  does not contain the normalised text; for a page without text it returns \<open>None\<close>.
\<close>

theorem short_page_is_not_returned:
  "normalize_spec (page_text hello_doc) = ''Hello\<newline>world''
   \<and> run (serve 200 hello_markup) (parsed_as hello_doc) example_url
       = Inr (PyStr (''Error scraping http://example.com:'' @ no_strip_attribute))
   \<and> \<not> sublist ''Hello\<newline>world'' (''Error scraping http://example.com:'' @ no_strip_attribute)
   \<and> normalize_spec (page_text []) = []
   \<and> run (serve 200 []) (parsed_as []) example_url = Inr PyNone"
proof -
  have a: "normalize_spec (page_text hello_doc) = ''Hello\<newline>world''"
    by (simp add: page_text_hello normalize_spec_def splitlines_def is_linebreak_def
        strip_def is_space_def)
  have b: "run (serve 200 hello_markup) (parsed_as hello_doc) example_url
       = Inr (PyStr (''Error scraping http://example.com:'' @ no_strip_attribute))"
    by (simp add: run_serve normalize_text_raises page_text_hello error_scraping_def
        example_url_def)
  have c: "\<not> sublist ''Hello\<newline>world'' (''Error scraping http://example.com:'' @ no_strip_attribute)"
    unfolding no_strip_attribute_def by code_simp
  have d: "normalize_spec (page_text []) = []"
    by (simp add: page_text_Nil normalize_spec_def splitlines_def)
  have e: "run (serve 200 []) (parsed_as []) example_url = Inr PyNone"
    by (simp add: run_serve page_text_Nil normalize_text_Nil finish_Nil)
  show ?thesis using a b c d e by blast
qed

text \<open>
  Claim C2, amended. \<open>run\<close> never raises: every call returns a value. A failure of the
  GET with message \<open>m\<close> gives the string \<open>Error scraping {url}:{m}\<close>, and so does a
  response with a status from 400 to 599, with the message of its \<open>HTTPError\<close>.
\<close>

theorem get_failures_become_error_strings:
  "(\<exists>v. run requests_get parse url = Inr v)
   \<and> (\<forall>e. requests_get url headers 10 = Inl e \<longrightarrow>
          run requests_get parse url
            = Inr (PyStr (''Error scraping '' @ url @ '':'' @ str_exn e)))
   \<and> (\<forall>response. requests_get url headers 10 = Inr response
          \<and> 400 \<le> status_code response \<and> status_code response < 600 \<longrightarrow>
          run requests_get parse url
            = Inr (PyStr (''Error scraping '' @ url @ '':'' @ http_error_msg response)))"
  by (auto simp: run_def run_body_def raise_for_status_def error_scraping_def
      split: sum.splits)

theorem get_failures_become_error_strings_witness:
  "(\<exists>v. run (unreachable ''timed out'') (parsed_as []) example_url = Inr v)
   \<and> run (unreachable ''timed out'') (parsed_as []) example_url
       = Inr (PyStr (''Error scraping http://example.com:timed out''))
   \<and> run (serve 404 []) (parsed_as []) example_url
       = Inr (PyStr (''Error scraping http://example.com:HTTP error for url''))"
  using get_failures_become_error_strings
     [of "unreachable ''timed out''" "parsed_as []" example_url]
    get_failures_become_error_strings
     [of "serve 404 []" "parsed_as []" example_url]
  by (simp add: unreachable_def serve_def example_url_def)

text \<open>
  Counterexample to claim C2 as stated: the status 304 is not a 2xx status, yet
  \<open>raise_for_status\<close> does not raise for it; with an empty body the call returns \<open>None\<close>,
  not an error string.
\<close>

theorem not_modified_gives_none:
  "\<not> (200 \<le> (304::int) \<and> (304::int) < 300)
   \<and> run (serve 304 []) (parsed_as []) example_url = Inr PyNone"
  by (simp add: run_serve page_text_Nil normalize_text_Nil finish_Nil)

text \<open>
  Claim C3. Whenever the GET succeeds with a status from 200 to 299 and the parsed
  document has a non-empty text, the normalisation raises the \<open>AttributeError\<close> of a
  generator object without \<open>strip\<close>, \<open>run\<close> returns the error string built from it, and
  it returns no success string \<open>Content from {url}: ...\<close> whatever the text.
\<close>

theorem nonempty_page_gives_attribute_error:
  assumes "requests_get url headers 10 = Inr response"
    and "200 \<le> status_code response" and "status_code response < 300"
    and "parse (text' response) = Inr nodes"
    and "page_text nodes \<noteq> []"
  shows "normalize_text (page_text nodes) = Inl (AttributeError no_strip_attribute)
       \<and> run requests_get parse url
           = Inr (PyStr (''Error scraping '' @ url @ '':'' @ no_strip_attribute))
       \<and> (\<forall>t. run requests_get parse url \<noteq> Inr (PyStr (content_from url t)))"
proof -
  have n: "normalize_text (page_text nodes) = Inl (AttributeError no_strip_attribute)"
    using assms(5) by (rule normalize_text_raises)
  have s: "\<not> (400 \<le> status_code response \<and> status_code response < 600)"
    using assms(3) by simp
  have r: "run requests_get parse url
             = Inr (PyStr (error_scraping url (AttributeError no_strip_attribute)))"
    using run_after_get [of requests_get url response parse nodes] assms(1) s assms(4) n
    by simp
  show ?thesis
    using n r by (simp add: error_scraping_def content_from_def)
qed

theorem nonempty_page_gives_attribute_error_witness:
  "normalize_text (page_text hello_doc) = Inl (AttributeError no_strip_attribute)
   \<and> run (serve 200 hello_markup) (parsed_as hello_doc) example_url
       = Inr (PyStr (''Error scraping '' @ example_url @ '':'' @ no_strip_attribute))
   \<and> (\<forall>t. run (serve 200 hello_markup) (parsed_as hello_doc) example_url
           \<noteq> Inr (PyStr (content_from example_url t)))"
proof -
  have g: "serve 200 hello_markup example_url headers 10
             = Inr \<lparr>status_code = 200, http_error_msg = ''HTTP error for url'',
                    text' = hello_markup\<rparr>"
    by (simp add: serve_def)
  have t: "page_text hello_doc \<noteq> []"
    by (simp add: page_text_hello)
  have p: "parsed_as hello_doc
             (text' \<lparr>status_code = 200, http_error_msg = ''HTTP error for url'',
                     text' = hello_markup\<rparr>) = Inr hello_doc"
    by (simp add: parsed_as_def)
  show ?thesis
    by (rule nonempty_page_gives_attribute_error
          [of "serve 200 hello_markup" example_url
              "\<lparr>status_code = 200, http_error_msg = ''HTTP error for url'',
                text' = hello_markup\<rparr>"
              "parsed_as hello_doc" hello_doc])
       (simp_all add: g t parsed_as_def)
qed

text \<open>
  Claim C4. A page whose text has more than 4000 characters should give
  \<open>Content from {url}:\<close> followed by the first 4000 characters and the truncation marker.
  For the page whose text is 4001 letters \<open>a\<close> the code returns the error string of the
  \<open>AttributeError\<close> instead.
\<close>

theorem long_page_is_not_truncated:
  "length (normalize_spec (page_text long_doc)) = 4001
   \<and> run (serve 200 []) (parsed_as long_doc) example_url
       = Inr (PyStr (''Error scraping http://example.com:'' @ no_strip_attribute))
   \<and> run (serve 200 []) (parsed_as long_doc) example_url
       \<noteq> Inr (PyStr (content_from example_url
                 (take 4000 (page_text long_doc) @ truncation_marker)))"
proof -
  have n: "page_text long_doc \<noteq> []"
    by (simp add: page_text_long)
  have r: "run (serve 200 []) (parsed_as long_doc) example_url
       = Inr (PyStr (''Error scraping http://example.com:'' @ no_strip_attribute))"
    by (simp add: run_serve normalize_text_raises [OF n] error_scraping_def example_url_def)
  have l: "normalize_spec (replicate 4001 CHR ''a'') = replicate 4001 CHR ''a''"
    using normalize_spec_letters [of 4000] by simp
  show ?thesis
    using r l by (simp add: page_text_long content_from_def)
qed

text \<open>
  Claim C5. The text read from the document is made of the strings that lie outside
  every \<open>script\<close>, \<open>style\<close>, \<open>footer\<close>, \<open>nav\<close> and \<open>aside\<close> element: those elements
  and their whole subtrees are discarded before the text is read. In particular, when
  no string outside these elements contains \<open>secret\<close>, the text does not contain
  \<open>secret\<close>, whatever the discarded elements hold.
\<close>

theorem discarded_elements_do_not_reach_text:
  "page_text nodes
     = join ''\<newline>'' (filter (\<lambda>t. t \<noteq> []) (map strip (kept_strings non_content nodes)))
   \<and> ((\<forall>s\<in>set (kept_strings non_content nodes). \<not> sublist ''secret'' s)
        \<longrightarrow> \<not> sublist ''secret'' (page_text nodes))"
proof -
  have pt: "page_text nodes
     = join ''\<newline>'' (filter (\<lambda>t. t \<noteq> []) (map strip (kept_strings non_content nodes)))"
    by (simp add: page_text_def get_text_def all_strings_discard)
  have "\<not> sublist ''secret'' (page_text nodes)"
    if outside: "\<forall>s\<in>set (kept_strings non_content nodes). \<not> sublist ''secret'' s"
  proof
    assume "sublist ''secret'' (page_text nodes)"
    then have j: "sublist ''secret''
        (join [CHR 0x0A] (filter (\<lambda>t. t \<noteq> []) (map strip (kept_strings non_content nodes))))"
      by (simp add: pt)
    have "\<exists>x\<in>set (filter (\<lambda>t. t \<noteq> []) (map strip (kept_strings non_content nodes))).
            sublist ''secret'' x"
      by (rule sublist_join [OF _ _ j]) simp_all
    then obtain x where
      x: "x \<in> set (filter (\<lambda>t. t \<noteq> []) (map strip (kept_strings non_content nodes)))"
      and sx: "sublist ''secret'' x"
      by blast
    from x obtain s where "s \<in> set (kept_strings non_content nodes)" and "x = strip s"
      by auto
    with sx outside sublist_strip show False by blast
  qed
  with pt show ?thesis by blast
qed

theorem discarded_elements_do_not_reach_text_witness:
  "kept_strings [] secret_doc = [''secret'', ''Hello   world'', ''imprint'']
   \<and> kept_strings non_content secret_doc = [''Hello   world'']
   \<and> page_text secret_doc = ''Hello   world''
   \<and> \<not> sublist ''secret'' (page_text secret_doc)"
proof -
  have k: "kept_strings non_content secret_doc = [''Hello   world'']"
    by (simp add: secret_doc_def non_content_def)
  have a: "kept_strings [] secret_doc = [''secret'', ''Hello   world'', ''imprint'']"
    by (simp add: secret_doc_def)
  have n: "\<not> sublist ''secret'' ''Hello   world''"
    by code_simp
  have s: "strip ''Hello   world'' = ''Hello   world''"
    by (simp add: strip_def is_space_def)
  show ?thesis
    using discarded_elements_do_not_reach_text [of secret_doc] k a n s by simp
qed


text \<open>
  Claim C7. Whatever text reaches the length cap, the text after the cap, less the
  truncation marker when the text ends with it, has at most 4000 characters.
\<close>

theorem capped_text_length:
  "length (capped_text t)
     - (if suffix truncation_marker (capped_text t) then length truncation_marker else 0)
   \<le> 4000"
proof (cases "length t > max_length")
  case True
  have "suffix truncation_marker (take max_length t @ truncation_marker)"
    by (rule suffixI) simp
  with True show ?thesis
    by (simp add: capped_text_def max_length_def)
next
  case False
  then show ?thesis
    by (simp add: capped_text_def max_length_def)
qed

text \<open>
  Claim C8. The markup \<open><html><body><p>Hello   world</p></body></html>\<close> should be
  extracted to the two lines \<open>Hello\<close> and \<open>world\<close>, as the normalisation in the
  specification's words gives. The code reads the text \<open>Hello   world\<close> and then raises
  the \<open>AttributeError\<close> instead of producing a text.
\<close>

theorem hello_world_is_not_extracted:
  "page_text hello_doc = ''Hello   world''
   \<and> normalized (parsed_as hello_doc) hello_markup = Inl (AttributeError no_strip_attribute)
   \<and> extraction (parsed_as hello_doc) hello_markup = Inl (AttributeError no_strip_attribute)
   \<and> normalize_spec ''Hello   world'' = ''Hello\<newline>world''"
proof -
  have a: "normalized (parsed_as hello_doc) hello_markup
             = Inl (AttributeError no_strip_attribute)"
    by (simp add: normalized_def parsed_as_def normalize_text_raises page_text_hello)
  have b: "normalize_spec ''Hello   world'' = ''Hello\<newline>world''"
    by (simp add: normalize_spec_def splitlines_def is_linebreak_def strip_def is_space_def)
  show ?thesis using a b by (simp add: page_text_hello extraction_def)
qed

text \<open>
  Claim C9. The extraction is a function of the markup: a call leaves the tool object as
  it was, a second call on the same markup gives the result of the first, and the result
  does not depend on the state of the object.
\<close>

theorem extraction_step_deterministic:
  "snd (extraction_step parse markup self) = self
   \<and> fst (extraction_step parse markup (snd (extraction_step parse markup self)))
       = fst (extraction_step parse markup self)
   \<and> fst (extraction_step parse markup self') = fst (extraction_step parse markup self)"
  by (simp add: extraction_step_def)

text \<open>
  Claim C10. A run of the script keeps every stored message in place. For a question
  that is processed it appends exactly two messages: the user message with the
  question, then one assistant message, which holds the answer when \<open>agent.run\<close>
  returns and the formatted error text when \<open>agent.run\<close> raises. Without a question or
  without an agent the history is unchanged.
\<close>

theorem chat_turn_appends:
  "prefix messages (chat_turn agent user_question messages)
   \<and> (user_question = Some q \<and> q \<noteq> [] \<and> agent = Some agent_run
        \<and> agent_run q = Inr response \<longrightarrow>
      chat_turn agent user_question messages
        = messages @ [\<lparr>role = ''user'', content = q\<rparr>,
                      \<lparr>role = ''assistant'', content = response\<rparr>])
   \<and> (user_question = Some q \<and> q \<noteq> [] \<and> agent = Some agent_run
        \<and> agent_run q = Inl e \<longrightarrow>
      chat_turn agent user_question messages
        = messages @ [\<lparr>role = ''user'', content = q\<rparr>,
                      \<lparr>role = ''assistant'', content = ''An error occured '' @ str_exn e\<rparr>])
   \<and> (user_question = None \<or> user_question = Some [] \<or> agent = None \<longrightarrow>
      chat_turn agent user_question messages = messages)"
  by (auto simp: chat_turn_def error_message_def Let_def split: option.splits sum.splits)

theorem chat_turn_appends_witness:
  "chat_turn (Some answering_agent) (Some ''hi'') [\<lparr>role = ''user'', content = ''old''\<rparr>]
       = [\<lparr>role = ''user'', content = ''old''\<rparr>, \<lparr>role = ''user'', content = ''hi''\<rparr>,
          \<lparr>role = ''assistant'', content = ''42''\<rparr>]
   \<and> chat_turn (Some failing_agent) (Some ''hi'') [\<lparr>role = ''user'', content = ''old''\<rparr>]
       = [\<lparr>role = ''user'', content = ''old''\<rparr>, \<lparr>role = ''user'', content = ''hi''\<rparr>,
          \<lparr>role = ''assistant'', content = ''An error occured rate limit''\<rparr>]
   \<and> chat_turn None (Some ''hi'') [\<lparr>role = ''user'', content = ''old''\<rparr>]
       = [\<lparr>role = ''user'', content = ''old''\<rparr>]"
proof -
  have a: "answering_agent ''hi'' = Inr ''42''"
    by (simp add: answering_agent_def)
  have f: "failing_agent ''hi'' = Inl (RequestException ''rate limit'')"
    by (simp add: failing_agent_def)
  from chat_turn_appends
     [of "[\<lparr>role = ''user'', content = ''old''\<rparr>]" "Some answering_agent" "Some ''hi''"
         "''hi''" answering_agent "''42''"] a
  have 1: "chat_turn (Some answering_agent) (Some ''hi'') [\<lparr>role = ''user'', content = ''old''\<rparr>]
       = [\<lparr>role = ''user'', content = ''old''\<rparr>, \<lparr>role = ''user'', content = ''hi''\<rparr>,
          \<lparr>role = ''assistant'', content = ''42''\<rparr>]"
    by simp
  from chat_turn_appends
     [of "[\<lparr>role = ''user'', content = ''old''\<rparr>]" "Some failing_agent" "Some ''hi''"
         "''hi''" failing_agent _ "RequestException ''rate limit''"] f
  have 2: "chat_turn (Some failing_agent) (Some ''hi'') [\<lparr>role = ''user'', content = ''old''\<rparr>]
       = [\<lparr>role = ''user'', content = ''old''\<rparr>, \<lparr>role = ''user'', content = ''hi''\<rparr>,
          \<lparr>role = ''assistant'', content = ''An error occured rate limit''\<rparr>]"
    by simp
  from chat_turn_appends
     [of "[\<lparr>role = ''user'', content = ''old''\<rparr>]" None "Some ''hi''"]
  have 3: "chat_turn None (Some ''hi'') [\<lparr>role = ''user'', content = ''old''\<rparr>]
       = [\<lparr>role = ''user'', content = ''old''\<rparr>]"
    by simp
  from 1 2 3 show ?thesis by blast
qed

end
